theory Spec2Isabelle
  imports
    Main
    "HOL-Library.Word"
    "HOL-Library.Char_ord"
    "HOL-Library.List_Lexorder"
    "HOL-Library.Sublist"
    "HOL-Library.AList"
    "HOL-Library.Multiset"
begin

unbundle bit_operations_syntax

section \<open>Python values, exceptions and dictionaries\<close>

text \<open>
  A Python \<^verbatim>\<open>str\<close> is modelled as a \<^typ>\<open>string\<close> whose characters are the code points
  below 256; comparison of strings is Python's (lexicographic by code point, a proper
  prefix first). A Python call either returns a value or raises: its model returns
  \<open>exn + 'a\<close>, with \<open>Inl\<close> the raised exception. Only instances of \<^verbatim>\<open>Exception\<close> are
  modelled (the ones an \<^verbatim>\<open>except Exception\<close> clause catches); \<open>exn_str\<close> is \<^verbatim>\<open>str(e)\<close>.
\<close>

datatype exn = Raised (exn_class: string) (exn_str: string)

definition and_then :: "exn + 'a \<Rightarrow> ('a \<Rightarrow> exn + 'b) \<Rightarrow> exn + 'b" where
  "and_then m f = (case m of Inl e \<Rightarrow> Inl e | Inr v \<Rightarrow> f v)"

text \<open>\<^verbatim>\<open>try: body  except Exception as e: handler(e)\<close>\<close>

definition try_except :: "exn + 'a \<Rightarrow> (exn \<Rightarrow> exn + 'a) \<Rightarrow> exn + 'a" where
  "try_except body handler = (case body of Inl e \<Rightarrow> handler e | Inr v \<Rightarrow> Inr v)"

text \<open>
  The values the extractors store in a metadata mapping: \<^verbatim>\<open>None\<close>, integers, strings
  and lists of these. A metadata mapping is a Python \<^verbatim>\<open>dict\<close> with string keys: an
  association list in insertion order, its keys distinct.
\<close>

datatype jvalue = JNull | JInt int | JStr string | JList "jvalue list"

type_synonym metadata = "(string \<times> jvalue) list"

text \<open>\<^verbatim>\<open>d[k] = v\<close>: a present key keeps its position, a new key goes last.\<close>

definition dict_set :: "metadata \<Rightarrow> string \<Rightarrow> jvalue \<Rightarrow> metadata" where
  "dict_set d k v = AList.update k v d"

text \<open>A value that is \<^verbatim>\<open>None\<close> or a string, as the libraries' attributes are.\<close>

fun opt_value :: "string option \<Rightarrow> jvalue" where
  "opt_value None = JNull"
| "opt_value (Some s) = JStr s"

text \<open>\<^verbatim>\<open>str(x)\<close> of an attribute that is \<^verbatim>\<open>None\<close> or an object whose text is given.\<close>

fun py_str :: "string option \<Rightarrow> string" where
  "py_str None = ''None''"
| "py_str (Some s) = s"

text \<open>Decimal text of a natural number and of an integer (\<^verbatim>\<open>str(n)\<close>).\<close>

definition digit_char :: "nat \<Rightarrow> char" where
  "digit_char d = ''0123456789'' ! d"

fun nat_str :: "nat \<Rightarrow> string" where
  "nat_str n = (if n < 10 then [digit_char n] else nat_str (n div 10) @ [digit_char (n mod 10)])"

declare nat_str.simps [simp del]

definition int_str :: "int \<Rightarrow> string" where
  "int_str i = (if i < 0 then CHR ''-'' # nat_str (nat (- i)) else nat_str (nat i))"

text \<open>\<^verbatim>\<open>'%0kd' % n\<close>: decimal, padded with zeros on the left to at least \<open>k\<close> characters.\<close>

definition zero_pad :: "nat \<Rightarrow> nat \<Rightarrow> string" where
  "zero_pad k n = replicate (k - length (nat_str n)) CHR ''0'' @ nat_str n"

text \<open>Reading a decimal text back (\<^verbatim>\<open>int(s)\<close>), used to show that the texts determine the numbers.\<close>

definition digit_val :: "char \<Rightarrow> nat" where
  "digit_val c = (of_char c :: nat) - 48"

definition decimal_value :: "string \<Rightarrow> nat" where
  "decimal_value s = foldl (\<lambda>a c. 10 * a + digit_val c) 0 s"

text \<open>
  \<^verbatim>\<open>str.lower()\<close> on code points below 256: the ASCII capitals and the Latin-1 capitals
  (0xC0 to 0xDE, without the multiplication sign 0xD7) move up by 32.
\<close>

definition lower_char :: "char \<Rightarrow> char" where
  "lower_char c =
     (let n = (of_char c :: nat) in
      if (65 \<le> n \<and> n \<le> 90) \<or> (192 \<le> n \<and> n \<le> 222 \<and> n \<noteq> 215)
      then char_of (n + 32) else c)"

definition lower :: "string \<Rightarrow> string" where
  "lower s = map lower_char s"

text \<open>\<^verbatim>\<open>s.rfind(c)\<close> for a one-character \<open>c\<close>: the highest index of \<open>c\<close>, or -1.\<close>

fun rfind :: "string \<Rightarrow> char \<Rightarrow> int" where
  "rfind [] c = - 1"
| "rfind (x # xs) c =
     (let r = rfind xs c in if 0 \<le> r then r + 1 else if x = c then 0 else - 1)"

text \<open>\<^verbatim>\<open>s[i:j]\<close>, \<^verbatim>\<open>s[:i]\<close> and \<^verbatim>\<open>s[i:]\<close> for indices that are not negative.\<close>

definition slice :: "string \<Rightarrow> int \<Rightarrow> int \<Rightarrow> string" where
  "slice s i j = take (nat j - nat i) (drop (nat i) s)"

definition slice_to :: "string \<Rightarrow> int \<Rightarrow> string" where
  "slice_to s i = take (nat i) s"

definition slice_from :: "string \<Rightarrow> int \<Rightarrow> string" where
  "slice_from s i = drop (nat i) s"

section \<open>os.path on POSIX\<close>

text \<open>
  \<^verbatim>\<open>posixpath.splitext\<close> is \<^verbatim>\<open>genericpath._splitext(p, '/', None, '.')\<close>: the extension
  starts at the last dot of the last component, unless that component has only leading
  dots before it. The loop skips the leading dots.
\<close>

function splitext_loop :: "string \<Rightarrow> int \<Rightarrow> int \<Rightarrow> string \<times> string" where
  "splitext_loop p filenameIndex dotIndex =
     (if filenameIndex < dotIndex then
        (if slice p filenameIndex (filenameIndex + 1) \<noteq> ''.''
         then (slice_to p dotIndex, slice_from p dotIndex)
         else splitext_loop p (filenameIndex + 1) dotIndex)
      else (p, slice_to p 0))"
  by pat_completeness auto
termination
  by (relation "measure (\<lambda>(p, i, d). nat (d - i))") auto

declare splitext_loop.simps [simp del]

definition splitext :: "string \<Rightarrow> string \<times> string" where
  "splitext p =
     (let sepIndex = rfind p CHR ''/'';
          dotIndex = rfind p CHR ''.''
      in if dotIndex > sepIndex then splitext_loop p (sepIndex + 1) dotIndex
         else (p, slice_to p 0))"

text \<open>\<^verbatim>\<open>posixpath.basename\<close>: what follows the last slash.\<close>

definition basename :: "string \<Rightarrow> string" where
  "basename p = (let i = rfind p CHR ''/'' + 1 in slice_from p i)"

section \<open>What the parsing libraries return\<close>

text \<open>
  The files and the third-party readers are the environment of the extractors. Each
  library call is a field of the record \<open>world\<close>, giving the outcome of the call: an
  exception, or a view of the parsed document holding what the extractor reads from it.
\<close>

text \<open>
  \<^verbatim>\<open>PyPDF2.PdfReader\<close>: the \<^verbatim>\<open>metadata\<close> property (raises, is \<^verbatim>\<open>None\<close>, or the items of
  the document information dictionary with \<^verbatim>\<open>str\<close> applied to the values) and the page
  list, each page given by the outcome of its \<^verbatim>\<open>extract_text()\<close>.
\<close>

record pdf_reader =
  pdf_metadata :: "exn + (string \<times> string) list option"
  pdf_pages :: "exn + (exn + string) list"

text \<open>\<^verbatim>\<open>docx.Document\<close>: the core properties and the text of each paragraph.\<close>

record docx_document =
  docx_author :: "string option"
  docx_created :: "string option"
  docx_last_modified_by :: "string option"
  docx_modified :: "string option"
  docx_title :: "string option"
  docx_paragraphs :: "string list"

text \<open>\<^verbatim>\<open>openpyxl.load_workbook\<close>: the sheet names and the workbook properties.\<close>

record workbook =
  wb_sheetnames :: "string list"
  wb_creator :: "string option"
  wb_created :: "string option"
  wb_modified :: "string option"
  wb_lastModifiedBy :: "string option"

text \<open>\<^verbatim>\<open>pptx.Presentation\<close>: the number of slides and the core properties.\<close>

record presentation =
  pptx_slides :: nat
  pptx_author :: "string option"
  pptx_created :: "string option"
  pptx_modified :: "string option"
  pptx_title :: "string option"

text \<open>
  \<^verbatim>\<open>PIL.Image.open\<close>: format, size, mode, and the outcome of \<^verbatim>\<open>_getexif()\<close>: it raises,
  returns \<^verbatim>\<open>None\<close>, or a dictionary from tag numbers to values (given by their \<^verbatim>\<open>str\<close>).
\<close>

record image =
  img_format :: "string option"
  img_width :: nat
  img_height :: nat
  img_mode :: "string option"
  img_getexif :: "exn + (nat \<times> string) list option"

text \<open>
  \<^verbatim>\<open>email.message_from_file\<close>: header lookup (\<^verbatim>\<open>None\<close> when the header is missing) and the
  content disposition of each part that \<^verbatim>\<open>walk()\<close> visits.
\<close>

record message =
  msg_header :: "string \<Rightarrow> string option"
  msg_walk :: "string option list"

text \<open>
  \<^verbatim>\<open>csv.reader\<close> is an iterator: it yields the rows that parse and then either stops
  (\<open>csv_error = None\<close>) or raises.
\<close>

record csv_reader =
  csv_rows :: "string list list"
  csv_error :: "exn option"

record world =
  file_open :: "string \<Rightarrow> exn + string"
  PdfReader :: "string \<Rightarrow> exn + pdf_reader"
  Document :: "string \<Rightarrow> exn + docx_document"
  load_workbook :: "string \<Rightarrow> exn + workbook"
  Presentation :: "string \<Rightarrow> exn + presentation"
  Image_open :: "string \<Rightarrow> exn + image"
  TAGS :: "nat \<Rightarrow> string option"
  message_from_file :: "string \<Rightarrow> exn + message"
  csv_reader_of :: "string \<Rightarrow> csv_reader"

text \<open>\<^verbatim>\<open>xs[0]\<close> on a sequence: \<^verbatim>\<open>IndexError\<close> when it is empty.\<close>

definition first_item :: "'a list \<Rightarrow> exn + 'a" where
  "first_item xs =
     (case xs of [] \<Rightarrow> Inl (Raised ''IndexError'' ''sequence index out of range'')
      | x # _ \<Rightarrow> Inr x)"

text \<open>\<^verbatim>\<open>next(it, None)\<close> and \<^verbatim>\<open>sum(1 for _ in it)\<close> on the rows iterator.\<close>

definition csv_next :: "csv_reader \<Rightarrow> exn + (string list option \<times> csv_reader)" where
  "csv_next r =
     (case csv_rows r of
        row # rest \<Rightarrow> Inr (Some row, r\<lparr>csv_rows := rest\<rparr>)
      | [] \<Rightarrow> (case csv_error r of None \<Rightarrow> Inr (None, r) | Some e \<Rightarrow> Inl e))"

definition csv_count :: "csv_reader \<Rightarrow> exn + nat" where
  "csv_count r = (case csv_error r of None \<Rightarrow> Inr (length (csv_rows r)) | Some e \<Rightarrow> Inl e)"

section \<open>DocumentMetadataExtractor\<close>

definition error_result :: "string \<Rightarrow> metadata" where
  "error_result msg = [(''error'', JStr msg)]"

subsection \<open>PDF\<close>

definition clean_key :: "string \<Rightarrow> string" where
  "clean_key key = (if take 1 key = ''/'' then slice_from key 1 else key)"

definition pdf_body :: "world \<Rightarrow> string \<Rightarrow> exn + metadata" where
  "pdf_body w file_path =
     and_then (file_open w file_path) (\<lambda>file.
     and_then (PdfReader w file) (\<lambda>pdf.
     and_then (pdf_metadata pdf) (\<lambda>info.
     let metadata =
           (case info of None \<Rightarrow> []
            | Some items \<Rightarrow>
                fold (\<lambda>(key, value) md. dict_set md (clean_key key) (JStr value)) items [])
     in
     and_then (pdf_pages pdf) (\<lambda>pages.
     let metadata = dict_set metadata ''page_count'' (JInt (int (length pages))) in
     and_then (first_item pages) (\<lambda>page.
     and_then page (\<lambda>text.
     Inr (dict_set metadata ''first_page_preview'' (JStr (slice_to text 200)))))))))"

definition extract_pdf_metadata :: "world \<Rightarrow> string \<Rightarrow> exn + metadata" where
  "extract_pdf_metadata w file_path =
     try_except (pdf_body w file_path)
       (\<lambda>e. Inr (error_result (''Failed to extract PDF metadata: '' @ exn_str e)))"

subsection \<open>Word\<close>

definition docx_body :: "world \<Rightarrow> string \<Rightarrow> exn + metadata" where
  "docx_body w file_path =
     and_then (Document w file_path) (\<lambda>doc.
     let metadata = dict_set [] ''author'' (opt_value (docx_author doc));
         metadata = dict_set metadata ''created'' (JStr (py_str (docx_created doc)));
         metadata = dict_set metadata ''last_modified_by'' (opt_value (docx_last_modified_by doc));
         metadata = dict_set metadata ''modified'' (JStr (py_str (docx_modified doc)));
         metadata = dict_set metadata ''title'' (opt_value (docx_title doc));
         metadata = dict_set metadata ''paragraph_count''
                      (JInt (int (length (docx_paragraphs doc))))
     in
     and_then (if docx_paragraphs doc \<noteq> []
               then and_then (first_item (docx_paragraphs doc)) (\<lambda>par. Inr (slice_to par 200))
               else Inr []) (\<lambda>preview.
     Inr (dict_set metadata ''text_preview'' (JStr preview))))"

definition extract_docx_metadata :: "world \<Rightarrow> string \<Rightarrow> exn + metadata" where
  "extract_docx_metadata w file_path =
     try_except (docx_body w file_path)
       (\<lambda>e. Inr (error_result (''Failed to extract Word metadata: '' @ exn_str e)))"

subsection \<open>Excel\<close>

definition xlsx_body :: "world \<Rightarrow> string \<Rightarrow> exn + metadata" where
  "xlsx_body w file_path =
     and_then (load_workbook w file_path) (\<lambda>wb.
     let metadata = dict_set [] ''sheet_names'' (JList (map JStr (wb_sheetnames wb)));
         metadata = dict_set metadata ''sheet_count'' (JInt (int (length (wb_sheetnames wb))));
         metadata = dict_set metadata ''creator'' (opt_value (wb_creator wb));
         metadata = dict_set metadata ''created'' (JStr (py_str (wb_created wb)));
         metadata = dict_set metadata ''modified'' (JStr (py_str (wb_modified wb)));
         metadata = dict_set metadata ''last_modified_by'' (opt_value (wb_lastModifiedBy wb))
     in Inr metadata)"

definition extract_xlsx_metadata :: "world \<Rightarrow> string \<Rightarrow> exn + metadata" where
  "extract_xlsx_metadata w file_path =
     try_except (xlsx_body w file_path)
       (\<lambda>e. Inr (error_result (''Failed to extract Excel metadata: '' @ exn_str e)))"

subsection \<open>PowerPoint\<close>

definition pptx_body :: "world \<Rightarrow> string \<Rightarrow> exn + metadata" where
  "pptx_body w file_path =
     and_then (Presentation w file_path) (\<lambda>prs.
     let metadata = dict_set [] ''slide_count'' (JInt (int (pptx_slides prs)));
         metadata = dict_set metadata ''author'' (opt_value (pptx_author prs));
         metadata = dict_set metadata ''created'' (JStr (py_str (pptx_created prs)));
         metadata = dict_set metadata ''modified'' (JStr (py_str (pptx_modified prs)));
         metadata = dict_set metadata ''title'' (opt_value (pptx_title prs))
     in Inr metadata)"

definition extract_pptx_metadata :: "world \<Rightarrow> string \<Rightarrow> exn + metadata" where
  "extract_pptx_metadata w file_path =
     try_except (pptx_body w file_path)
       (\<lambda>e. Inr (error_result (''Failed to extract PowerPoint metadata: '' @ exn_str e)))"

subsection \<open>Images\<close>

definition exif_key :: "world \<Rightarrow> nat \<Rightarrow> string" where
  "exif_key w tag_id =
     ''exif_'' @ (case TAGS w tag_id of Some name \<Rightarrow> name | None \<Rightarrow> nat_str tag_id)"

definition image_body :: "world \<Rightarrow> string \<Rightarrow> exn + metadata" where
  "image_body w file_path =
     and_then (Image_open w file_path) (\<lambda>img.
     let metadata = dict_set [] ''format'' (opt_value (img_format img));
         metadata = dict_set metadata ''size''
                      (JStr (nat_str (img_width img) @ ''x'' @ nat_str (img_height img)));
         metadata = dict_set metadata ''mode'' (opt_value (img_mode img))
     in
     and_then (img_getexif img) (\<lambda>exif_data.
     Inr (case exif_data of None \<Rightarrow> metadata
          | Some items \<Rightarrow>
              fold (\<lambda>(tag_id, value) md. dict_set md (exif_key w tag_id) (JStr value))
                items metadata)))"

definition extract_image_metadata :: "world \<Rightarrow> string \<Rightarrow> exn + metadata" where
  "extract_image_metadata w file_path =
     try_except (image_body w file_path)
       (\<lambda>e. Inr (error_result (''Failed to extract image metadata: '' @ exn_str e)))"

subsection \<open>Email\<close>

definition msg_get :: "message \<Rightarrow> string \<Rightarrow> string \<Rightarrow> string" where
  "msg_get msg name failobj = (case msg_header msg name of None \<Rightarrow> failobj | Some v \<Rightarrow> v)"

definition email_body :: "world \<Rightarrow> string \<Rightarrow> exn + metadata" where
  "email_body w file_path =
     and_then (file_open w file_path) (\<lambda>file.
     and_then (message_from_file w file) (\<lambda>msg.
     let metadata = dict_set [] ''subject'' (JStr (msg_get msg ''Subject'' []));
         metadata = dict_set metadata ''from'' (JStr (msg_get msg ''From'' []));
         metadata = dict_set metadata ''to'' (JStr (msg_get msg ''To'' []));
         metadata = dict_set metadata ''date'' (JStr (msg_get msg ''Date'' []));
         metadata = dict_set metadata ''cc'' (JStr (msg_get msg ''Cc'' []));
         attachment_count =
           fold (\<lambda>part n. if part = Some ''attachment'' then n + 1 else n) (msg_walk msg) (0::int)
     in Inr (dict_set metadata ''attachment_count'' (JInt attachment_count))))"

definition extract_email_metadata :: "world \<Rightarrow> string \<Rightarrow> exn + metadata" where
  "extract_email_metadata w file_path =
     try_except (email_body w file_path)
       (\<lambda>e. Inr (error_result (''Failed to extract email metadata: '' @ exn_str e)))"

subsection \<open>CSV\<close>

definition csv_body :: "world \<Rightarrow> string \<Rightarrow> exn + metadata" where
  "csv_body w file_path =
     and_then (file_open w file_path) (\<lambda>csvfile.
     and_then (csv_next (csv_reader_of w csvfile)) (\<lambda>(headers, rest).
     and_then (csv_count rest) (\<lambda>row_count.
     let names = (case headers of None \<Rightarrow> [] | Some hs \<Rightarrow> hs);
         metadata = dict_set [] ''column_count'' (JInt (int (length names)));
         metadata = dict_set metadata ''column_names'' (JList (map JStr names));
         metadata = dict_set metadata ''row_count'' (JInt (int row_count))
     in Inr metadata)))"

definition extract_csv_metadata :: "world \<Rightarrow> string \<Rightarrow> exn + metadata" where
  "extract_csv_metadata w file_path =
     try_except (csv_body w file_path)
       (\<lambda>e. Inr (error_result (''Failed to extract CSV metadata: '' @ exn_str e)))"

subsection \<open>The dispatcher\<close>

definition supported_extensions :: "(string \<times> (world \<Rightarrow> string \<Rightarrow> exn + metadata)) list" where
  "supported_extensions =
     [(''.pdf'', extract_pdf_metadata),
      (''.docx'', extract_docx_metadata),
      (''.xlsx'', extract_xlsx_metadata),
      (''.pptx'', extract_pptx_metadata),
      (''.jpg'', extract_image_metadata),
      (''.jpeg'', extract_image_metadata),
      (''.png'', extract_image_metadata),
      (''.eml'', extract_email_metadata),
      (''.csv'', extract_csv_metadata)]"

definition extract_metadata :: "world \<Rightarrow> string \<Rightarrow> exn + metadata" where
  "extract_metadata w file_path =
     (let extension = snd (splitext file_path);
          extension = lower extension
      in case map_of supported_extensions extension of
           Some handler \<Rightarrow> handler w file_path
         | None \<Rightarrow> Inr (error_result (''Unsupported file type: '' @ extension)))"

section \<open>json.dumps\<close>

text \<open>
  \<^verbatim>\<open>json.dumps\<close> with its defaults: separators \<^verbatim>\<open>', '\<close> and \<^verbatim>\<open>': '\<close>, and
  \<^verbatim>\<open>ensure_ascii=True\<close>, under which every character outside the printable ASCII range
  is written as an escape, so that the text is pure ASCII.
\<close>

definition hex_char :: "nat \<Rightarrow> char" where
  "hex_char d = ''0123456789abcdef'' ! d"

definition hex4 :: "nat \<Rightarrow> string" where
  "hex4 n = map hex_char [n div 4096 mod 16, n div 256 mod 16, n div 16 mod 16, n mod 16]"

definition escape_char :: "char \<Rightarrow> string" where
  "escape_char c =
     (let n = (of_char c :: nat) in
      if n = 92 then [CHR 0x5C, CHR 0x5C]
      else if n = 34 then [CHR 0x5C, CHR 0x22]
      else if n = 8 then [CHR 0x5C, CHR ''b'']
      else if n = 12 then [CHR 0x5C, CHR ''f'']
      else if n = 10 then [CHR 0x5C, CHR ''n'']
      else if n = 13 then [CHR 0x5C, CHR ''r'']
      else if n = 9 then [CHR 0x5C, CHR ''t'']
      else if 32 \<le> n \<and> n \<le> 126 then [c]
      else [CHR 0x5C, CHR ''u''] @ hex4 n)"

definition encode_basestring_ascii :: "string \<Rightarrow> string" where
  "encode_basestring_ascii s = [CHR 0x22] @ concat (map escape_char s) @ [CHR 0x22]"

fun join :: "string \<Rightarrow> string list \<Rightarrow> string" where
  "join sep [] = []"
| "join sep [x] = x"
| "join sep (x # y # ys) = x @ sep @ join sep (y # ys)"

fun dumps_value :: "jvalue \<Rightarrow> string" where
  "dumps_value JNull = ''null''"
| "dumps_value (JInt i) = int_str i"
| "dumps_value (JStr s) = encode_basestring_ascii s"
| "dumps_value (JList xs) = ''['' @ join '', '' (map dumps_value xs) @ '']''"

text \<open>
  A dictionary: with \<^verbatim>\<open>sort_keys\<close> the items are sorted first (\<^verbatim>\<open>sorted(dct.items())\<close>; the
  keys of a dictionary are distinct, so the keys alone decide the order).
\<close>

definition json_dumps :: "metadata \<Rightarrow> bool \<Rightarrow> string" where
  "json_dumps obj sort_keys =
     (let items = (if sort_keys then sort_key fst obj else obj)
      in ''{'' @ join '', ''
                  (map (\<lambda>(k, v). encode_basestring_ascii k @ '': '' @ dumps_value v) items)
             @ ''}'')"

section \<open>hashlib.sha256\<close>

text \<open>\<^verbatim>\<open>str.encode()\<close>: UTF-8, for code points below 256.\<close>

definition utf8_char :: "char \<Rightarrow> 8 word list" where
  "utf8_char c =
     (let n = (of_char c :: nat) in
      if n < 128 then [of_nat n] else [of_nat (192 + n div 64), of_nat (128 + n mod 64)])"

definition utf8_encode :: "string \<Rightarrow> 8 word list" where
  "utf8_encode s = concat (map utf8_char s)"

text \<open>SHA-256 as FIPS 180-4 defines it.\<close>

type_synonym sha_state =
  "32 word \<times> 32 word \<times> 32 word \<times> 32 word \<times> 32 word \<times> 32 word \<times> 32 word \<times> 32 word"

definition K256 :: "32 word list" where
  "K256 =
    [0x428A2F98, 0x71374491, 0xB5C0FBCF, 0xE9B5DBA5, 0x3956C25B, 0x59F111F1, 0x923F82A4, 0xAB1C5ED5,
     0xD807AA98, 0x12835B01, 0x243185BE, 0x550C7DC3, 0x72BE5D74, 0x80DEB1FE, 0x9BDC06A7, 0xC19BF174,
     0xE49B69C1, 0xEFBE4786, 0x0FC19DC6, 0x240CA1CC, 0x2DE92C6F, 0x4A7484AA, 0x5CB0A9DC, 0x76F988DA,
     0x983E5152, 0xA831C66D, 0xB00327C8, 0xBF597FC7, 0xC6E00BF3, 0xD5A79147, 0x06CA6351, 0x14292967,
     0x27B70A85, 0x2E1B2138, 0x4D2C6DFC, 0x53380D13, 0x650A7354, 0x766A0ABB, 0x81C2C92E, 0x92722C85,
     0xA2BFE8A1, 0xA81A664B, 0xC24B8B70, 0xC76C51A3, 0xD192E819, 0xD6990624, 0xF40E3585, 0x106AA070,
     0x19A4C116, 0x1E376C08, 0x2748774C, 0x34B0BCB5, 0x391C0CB3, 0x4ED8AA4A, 0x5B9CCA4F, 0x682E6FF3,
     0x748F82EE, 0x78A5636F, 0x84C87814, 0x8CC70208, 0x90BEFFFA, 0xA4506CEB, 0xBEF9A3F7, 0xC67178F2]"

definition H256 :: sha_state where
  "H256 = (0x6A09E667, 0xBB67AE85, 0x3C6EF372, 0xA54FF53A,
           0x510E527F, 0x9B05688C, 0x1F83D9AB, 0x5BE0CD19)"

definition Ch :: "32 word \<Rightarrow> 32 word \<Rightarrow> 32 word \<Rightarrow> 32 word" where
  "Ch x y z = (x AND y) XOR (NOT x AND z)"

definition Maj :: "32 word \<Rightarrow> 32 word \<Rightarrow> 32 word \<Rightarrow> 32 word" where
  "Maj x y z = (x AND y) XOR (x AND z) XOR (y AND z)"

definition Sigma0 :: "32 word \<Rightarrow> 32 word" where
  "Sigma0 x = word_rotr 2 x XOR word_rotr 13 x XOR word_rotr 22 x"

definition Sigma1 :: "32 word \<Rightarrow> 32 word" where
  "Sigma1 x = word_rotr 6 x XOR word_rotr 11 x XOR word_rotr 25 x"

definition sigma0 :: "32 word \<Rightarrow> 32 word" where
  "sigma0 x = word_rotr 7 x XOR word_rotr 18 x XOR drop_bit 3 x"

definition sigma1 :: "32 word \<Rightarrow> 32 word" where
  "sigma1 x = word_rotr 17 x XOR word_rotr 19 x XOR drop_bit 10 x"

text \<open>Padding: a one bit, zeros, and the length in bits as 64 bits, big-endian.\<close>

definition be64 :: "64 word \<Rightarrow> 8 word list" where
  "be64 n = map (\<lambda>i. ucast (drop_bit (8 * i) n)) [7, 6, 5, 4, 3, 2, 1, 0]"

definition sha256_pad :: "8 word list \<Rightarrow> 8 word list" where
  "sha256_pad msg =
     msg @ [0x80] @ replicate ((119 - length msg mod 64) mod 64) 0
         @ be64 (of_nat (8 * length msg))"

fun be32_words :: "8 word list \<Rightarrow> 32 word list" where
  "be32_words (b0 # b1 # b2 # b3 # bs) =
     (push_bit 24 (ucast b0) OR push_bit 16 (ucast b1) OR push_bit 8 (ucast b2) OR ucast b3)
       # be32_words bs"
| "be32_words _ = []"

fun blocks :: "nat \<Rightarrow> 8 word list \<Rightarrow> 8 word list list" where
  "blocks 0 bs = []"
| "blocks (Suc n) bs = take 64 bs # blocks n (drop 64 bs)"

fun schedule :: "nat \<Rightarrow> 32 word list \<Rightarrow> 32 word list" where
  "schedule 0 ws = ws"
| "schedule (Suc n) ws =
     (let t = length ws in
      schedule n (ws @ [sigma1 (ws ! (t - 2)) + ws ! (t - 7) + sigma0 (ws ! (t - 15)) + ws ! (t - 16)]))"

definition sha_round :: "32 word \<times> 32 word \<Rightarrow> sha_state \<Rightarrow> sha_state" where
  "sha_round kw s =
     (case s of (a, b, c, d, e, f, g, h) \<Rightarrow>
        let T1 = h + Sigma1 e + Ch e f g + fst kw + snd kw;
            T2 = Sigma0 a + Maj a b c
        in (T1 + T2, a, b, c, d + T1, e, f, g))"

definition compress :: "8 word list \<Rightarrow> sha_state \<Rightarrow> sha_state" where
  "compress block H =
     (case H of (h0, h1, h2, h3, h4, h5, h6, h7) \<Rightarrow>
      case fold sha_round (zip K256 (schedule 48 (be32_words block))) H of
        (a, b, c, d, e, f, g, h) \<Rightarrow>
          (h0 + a, h1 + b, h2 + c, h3 + d, h4 + e, h5 + f, h6 + g, h7 + h))"

definition sha256 :: "8 word list \<Rightarrow> sha_state" where
  "sha256 msg =
     (let padded = sha256_pad msg in fold compress (blocks (length padded div 64) padded) H256)"

definition hex32 :: "32 word \<Rightarrow> string" where
  "hex32 x = map (\<lambda>i. hex_char (unat (drop_bit (4 * i) x AND 0xF))) [7, 6, 5, 4, 3, 2, 1, 0]"

definition hexdigest :: "sha_state \<Rightarrow> string" where
  "hexdigest H =
     (case H of (h0, h1, h2, h3, h4, h5, h6, h7) \<Rightarrow>
        concat (map hex32 [h0, h1, h2, h3, h4, h5, h6, h7]))"

section \<open>MetadataHasher\<close>

definition hash_metadata :: "metadata \<Rightarrow> string" where
  "hash_metadata metadata =
     (let metadata_str = json_dumps metadata True
      in hexdigest (sha256 (utf8_encode metadata_str)))"

section \<open>DatabaseManager\<close>

text \<open>
  The table \<^verbatim>\<open>document_metadata\<close>: its rows in the order of insertion, and the largest
  row id given so far, which \<^verbatim>\<open>AUTOINCREMENT\<close> keeps in \<^verbatim>\<open>sqlite_sequence\<close>.
\<close>

record row =
  r_id :: int
  r_file_path :: string
  r_file_name :: string
  r_metadata_hash :: string
  r_timestamp :: string
  r_metadata_json :: string

record database =
  db_rows :: "row list"
  db_seq :: int

text \<open>The table that \<^verbatim>\<open>create_tables\<close> makes in a new database file.\<close>

definition new_database :: database where
  "new_database = \<lparr>db_rows = [], db_seq = 0\<rparr>"

text \<open>\<^verbatim>\<open>datetime.datetime.now()\<close> gives a naive local time; \<^verbatim>\<open>isoformat()\<close> writes it.\<close>

record datetime =
  dt_year :: nat
  dt_month :: nat
  dt_day :: nat
  dt_hour :: nat
  dt_minute :: nat
  dt_second :: nat
  dt_microsecond :: nat

definition isoformat :: "datetime \<Rightarrow> string" where
  "isoformat dt =
     zero_pad 4 (dt_year dt) @ ''-'' @ zero_pad 2 (dt_month dt) @ ''-'' @ zero_pad 2 (dt_day dt)
       @ ''T'' @ zero_pad 2 (dt_hour dt) @ '':'' @ zero_pad 2 (dt_minute dt)
       @ '':'' @ zero_pad 2 (dt_second dt)
       @ (if dt_microsecond dt = 0 then [] else ''.'' @ zero_pad 6 (dt_microsecond dt))"

text \<open>The ranges of the fields of a \<^verbatim>\<open>datetime\<close> object.\<close>

definition datetime_ok :: "datetime \<Rightarrow> bool" where
  "datetime_ok dt =
     (1 \<le> dt_year dt \<and> dt_year dt \<le> 9999 \<and> 1 \<le> dt_month dt \<and> dt_month dt \<le> 12
      \<and> 1 \<le> dt_day dt \<and> dt_day dt \<le> 31 \<and> dt_hour dt < 24 \<and> dt_minute dt < 60
      \<and> dt_second dt < 60 \<and> dt_microsecond dt < 1000000)"

text \<open>
  The row id of an insertion: one more than the largest id given so far; SQLite refuses
  the insertion (\<^verbatim>\<open>SQLITE_FULL\<close>) once the largest 64-bit id has been given.
\<close>

definition next_rowid :: "database \<Rightarrow> exn + int" where
  "next_rowid db =
     (let largest = fold max (map r_id (db_rows db)) (db_seq db)
      in if largest \<ge> 2 ^ 63 - 1
         then Inl (Raised ''OperationalError'' ''database or disk is full'')
         else Inr (largest + 1))"

definition save_metadata ::
  "database \<Rightarrow> datetime \<Rightarrow> string \<Rightarrow> metadata \<Rightarrow> string \<Rightarrow> exn + (database \<times> int)" where
  "save_metadata db now file_path metadata metadata_hash =
     (let timestamp = isoformat now;
          file_name = basename file_path;
          metadata_json = json_dumps metadata False
      in and_then (next_rowid db) (\<lambda>lastrowid.
           Inr (db\<lparr>db_rows := db_rows db @
                       [\<lparr>r_id = lastrowid, r_file_path = file_path, r_file_name = file_name,
                         r_metadata_hash = metadata_hash, r_timestamp = timestamp,
                         r_metadata_json = metadata_json\<rparr>],
                    db_seq := lastrowid\<rparr>, lastrowid)))"

text \<open>
  \<^verbatim>\<open>SELECT * FROM document_metadata ORDER BY timestamp DESC\<close>: the rows by descending
  timestamp text (binary collation); rows of equal timestamp stay in the order of the scan.
\<close>

definition order_by_timestamp_desc :: "row list \<Rightarrow> row list" where
  "order_by_timestamp_desc rs = rev (sort_key r_timestamp (rev rs))"

definition get_all_metadata :: "database \<Rightarrow> row list" where
  "get_all_metadata db = order_by_timestamp_desc (db_rows db)"

section \<open>Example environments\<close>

text \<open>A machine on which no file can be opened: every library call raises.\<close>

definition enoent :: exn where
  "enoent = Raised ''FileNotFoundError'' ''[Errno 2] No such file or directory''"

definition no_files :: world where
  "no_files =
     \<lparr>file_open = (\<lambda>p. Inl enoent),
      PdfReader = (\<lambda>f. Inl enoent),
      Document = (\<lambda>p. Inl enoent),
      load_workbook = (\<lambda>p. Inl enoent),
      Presentation = (\<lambda>p. Inl enoent),
      Image_open = (\<lambda>p. Inl enoent),
      TAGS = (\<lambda>n. None),
      message_from_file = (\<lambda>f. Inl enoent),
      csv_reader_of = (\<lambda>f. \<lparr>csv_rows = [], csv_error = None\<rparr>)\<rparr>"

text \<open>A CSV file with the header \<^verbatim>\<open>a,b,c\<close> and two data rows.\<close>

definition csv_world :: world where
  "csv_world =
     no_files
       \<lparr>file_open := (\<lambda>p. Inr ''a,b,c 1,2,3 4,5,6''),
        csv_reader_of :=
          (\<lambda>f. \<lparr>csv_rows = [ [''a'', ''b'', ''c''], [''1'', ''2'', ''3''], [''4'', ''5'', ''6'']],
                csv_error = None\<rparr>)\<rparr>"

text \<open>A well-formed PDF file without pages, as an empty \<^verbatim>\<open>PdfWriter\<close> writes it.\<close>

definition zero_page_pdf :: pdf_reader where
  "zero_page_pdf = \<lparr>pdf_metadata = Inr (Some [(''/Producer'', ''PyPDF2'')]), pdf_pages = Inr []\<rparr>"

definition zero_page_pdf_world :: world where
  "zero_page_pdf_world =
     no_files\<lparr>file_open := (\<lambda>p. Inr ''%PDF-1.3''), PdfReader := (\<lambda>f. Inr zero_page_pdf)\<rparr>"

text \<open>
  A database holding one record, and a clock reading twenty minutes before that record's
  timestamp (local time repeats an hour when daylight saving time ends).
\<close>

definition stale_db :: database where
  "stale_db =
     \<lparr>db_rows =
        [\<lparr>r_id = 1, r_file_path = ''/docs/a.csv'', r_file_name = ''a.csv'',
          r_metadata_hash = ''44136fa355b3678a1146ad16f7e8649e94fb4fc21fe77e8310c060f61caaff8a'',
          r_timestamp = ''2024-11-03T01:30:00'', r_metadata_json = ''{}''\<rparr>],
      db_seq = 1\<rparr>"

definition clock_0110 :: datetime where
  "clock_0110 =
     \<lparr>dt_year = 2024, dt_month = 11, dt_day = 3, dt_hour = 1, dt_minute = 10, dt_second = 0,
      dt_microsecond = 0\<rparr>"

definition clock_0130 :: datetime where
  "clock_0130 =
     \<lparr>dt_year = 2024, dt_month = 11, dt_day = 3, dt_hour = 1, dt_minute = 30, dt_second = 0,
      dt_microsecond = 0\<rparr>"

definition clock_0150 :: datetime where
  "clock_0150 =
     \<lparr>dt_year = 2024, dt_month = 11, dt_day = 3, dt_hour = 1, dt_minute = 50, dt_second = 0,
      dt_microsecond = 250\<rparr>"

text \<open>
  A new database after one save of the empty mapping at 01:10, and after a second save
  of it, either at the same clock reading or at 01:50.
\<close>

definition saved_once :: database where
  "saved_once =
     \<lparr>db_rows =
        [\<lparr>r_id = 1, r_file_path = ''/docs/a.csv'', r_file_name = ''a.csv'',
          r_metadata_hash = ''44136fa355b3678a1146ad16f7e8649e94fb4fc21fe77e8310c060f61caaff8a'',
          r_timestamp = ''2024-11-03T01:10:00'', r_metadata_json = ''{}''\<rparr>],
      db_seq = 1\<rparr>"

definition saved_twice_same_clock :: database where
  "saved_twice_same_clock =
     \<lparr>db_rows =
        [\<lparr>r_id = 1, r_file_path = ''/docs/a.csv'', r_file_name = ''a.csv'',
          r_metadata_hash = ''44136fa355b3678a1146ad16f7e8649e94fb4fc21fe77e8310c060f61caaff8a'',
          r_timestamp = ''2024-11-03T01:10:00'', r_metadata_json = ''{}''\<rparr>,
         \<lparr>r_id = 2, r_file_path = ''/docs/a.csv'', r_file_name = ''a.csv'',
          r_metadata_hash = ''44136fa355b3678a1146ad16f7e8649e94fb4fc21fe77e8310c060f61caaff8a'',
          r_timestamp = ''2024-11-03T01:10:00'', r_metadata_json = ''{}''\<rparr>],
      db_seq = 2\<rparr>"

definition saved_twice_later :: database where
  "saved_twice_later =
     \<lparr>db_rows =
        [\<lparr>r_id = 1, r_file_path = ''/docs/a.csv'', r_file_name = ''a.csv'',
          r_metadata_hash = ''44136fa355b3678a1146ad16f7e8649e94fb4fc21fe77e8310c060f61caaff8a'',
          r_timestamp = ''2024-11-03T01:10:00'', r_metadata_json = ''{}''\<rparr>,
         \<lparr>r_id = 2, r_file_path = ''/docs/a.csv'', r_file_name = ''a.csv'',
          r_metadata_hash = ''44136fa355b3678a1146ad16f7e8649e94fb4fc21fe77e8310c060f61caaff8a'',
          r_timestamp = ''2024-11-03T01:50:00.000250'', r_metadata_json = ''{}''\<rparr>],
      db_seq = 2\<rparr>"

section \<open>Basic facts about the exception plumbing\<close>

lemma and_then_Inr [simp]: "and_then (Inr v) f = f v"
  by (simp add: and_then_def)

lemma and_then_Inl [simp]: "and_then (Inl e) f = Inl e"
  by (simp add: and_then_def)

lemma try_except_Inr [simp]: "try_except (Inr v) h = Inr v"
  by (simp add: try_except_def)

lemma try_except_Inl [simp]: "try_except (Inl e) h = h e"
  by (simp add: try_except_def)

section \<open>CSV extraction\<close>

text \<open>
  C7. For every CSV file whose reader yields the header row \<^verbatim>\<open>a,b,c\<close> and exactly two
  further rows, \<open>extract_csv_metadata\<close> returns the mapping with \<open>column_count = 3\<close>,
  \<open>column_names = ["a", "b", "c"]\<close> and \<open>row_count = 2\<close>.
\<close>

theorem csv_header_and_two_rows:
  assumes "file_open w file_path = Inr csvfile"
    and "csv_reader_of w csvfile =
           \<lparr>csv_rows = [ [''a'', ''b'', ''c''], row1, row2], csv_error = None\<rparr>"
  shows "extract_csv_metadata w file_path =
           Inr [(''column_count'', JInt 3),
                (''column_names'', JList [JStr ''a'', JStr ''b'', JStr ''c'']),
                (''row_count'', JInt 2)]"
  using assms
  by (simp add: extract_csv_metadata_def csv_body_def csv_next_def csv_count_def dict_set_def)

theorem csv_header_and_two_rows_witness:
  "file_open csv_world ''data.csv'' = Inr ''a,b,c 1,2,3 4,5,6''
   \<and> csv_reader_of csv_world ''a,b,c 1,2,3 4,5,6'' =
       \<lparr>csv_rows = [ [''a'', ''b'', ''c''], [''1'', ''2'', ''3''], [''4'', ''5'', ''6'']],
        csv_error = None\<rparr>
   \<and> extract_csv_metadata csv_world ''data.csv'' =
       Inr [(''column_count'', JInt 3),
            (''column_names'', JList [JStr ''a'', JStr ''b'', JStr ''c'']),
            (''row_count'', JInt 2)]"
proof -
  have o: "file_open csv_world ''data.csv'' = Inr ''a,b,c 1,2,3 4,5,6''"
    by (simp add: csv_world_def)
  have r: "csv_reader_of csv_world ''a,b,c 1,2,3 4,5,6'' =
       \<lparr>csv_rows = [ [''a'', ''b'', ''c''], [''1'', ''2'', ''3''], [''4'', ''5'', ''6'']],
        csv_error = None\<rparr>"
    by (simp add: csv_world_def)
  show ?thesis
    using o r csv_header_and_two_rows [OF o r] by simp
qed

section \<open>Paths\<close>

text \<open>\<open>rfind\<close> finds the last occurrence: nothing equal to \<open>c\<close> follows the index it returns.\<close>

lemma rfind_cases:
  "(rfind s c = - 1 \<and> c \<notin> set s)
   \<or> (\<exists>pre post. s = pre @ c # post \<and> c \<notin> set post \<and> rfind s c = int (length pre))"
proof (induction s)
  case Nil
  then show ?case by simp
next
  case (Cons x xs)
  from Cons.IH show ?case
  proof
    assume absent: "rfind xs c = - 1 \<and> c \<notin> set xs"
    show ?thesis
    proof (cases "x = c")
      case True
      with absent
      have "x # xs = [] @ c # xs \<and> c \<notin> set xs \<and> rfind (x # xs) c = int (length ([]::string))"
        by simp
      then show ?thesis by blast
    next
      case False
      with absent show ?thesis by simp
    qed
  next
    assume "\<exists>pre post. xs = pre @ c # post \<and> c \<notin> set post \<and> rfind xs c = int (length pre)"
    then obtain pre post
      where "xs = pre @ c # post" "c \<notin> set post" "rfind xs c = int (length pre)"
      by blast
    then have "x # xs = (x # pre) @ c # post \<and> c \<notin> set post
               \<and> rfind (x # xs) c = int (length (x # pre))"
      by (simp add: Let_def)
    then show ?thesis by blast
  qed
qed

lemma rfind_lower_bound: "- 1 \<le> rfind s c"
  using rfind_cases [of s c] by auto

lemma rfind_upper_bound: "rfind s c < int (length s)"
  using rfind_cases [of s c] by auto

text \<open>The base name is the part of the path after its last slash.\<close>

lemma basename_is_final_component:
  shows "\<exists>dir. file_path = dir @ basename file_path \<and> (dir = [] \<or> last dir = CHR ''/'')"
    "CHR ''/'' \<notin> set (basename file_path)"
proof -
  from rfind_cases [of file_path "CHR ''/''"]
  have "(\<exists>dir. file_path = dir @ basename file_path \<and> (dir = [] \<or> last dir = CHR ''/''))
        \<and> CHR ''/'' \<notin> set (basename file_path)"
  proof
    assume "rfind file_path CHR ''/'' = - 1 \<and> CHR ''/'' \<notin> set file_path"
    then show ?thesis by (simp add: basename_def slice_from_def)
  next
    assume "\<exists>pre post. file_path = pre @ CHR ''/'' # post \<and> CHR ''/'' \<notin> set post
              \<and> rfind file_path CHR ''/'' = int (length pre)"
    then obtain pre post
      where p: "file_path = pre @ CHR ''/'' # post" "CHR ''/'' \<notin> set post"
        "rfind file_path CHR ''/'' = int (length pre)"
      by blast
    have "nat (int (length pre) + 1) = Suc (length pre)" by simp
    with p have b: "basename file_path = post"
      by (simp add: basename_def slice_from_def)
    have "file_path = (pre @ [CHR ''/'']) @ post" using p(1) by simp
    with b p(2) show ?thesis by (metis last_snoc)
  qed
  then show "\<exists>dir. file_path = dir @ basename file_path \<and> (dir = [] \<or> last dir = CHR ''/'')"
    and "CHR ''/'' \<notin> set (basename file_path)"
    by blast+
qed

lemma no_dot_in_basename:
  assumes "CHR ''.'' \<notin> set (basename p)"
  shows "rfind p CHR ''.'' \<le> rfind p CHR ''/''"
proof (rule ccontr)
  assume "\<not> rfind p CHR ''.'' \<le> rfind p CHR ''/''"
  then have gt: "rfind p CHR ''/'' < rfind p CHR ''.''" by simp
  with rfind_lower_bound [of p "CHR ''/''"] have "rfind p CHR ''.'' \<noteq> - 1" by linarith
  with rfind_cases [of p "CHR ''.''"] obtain pre post
    where p: "p = pre @ CHR ''.'' # post" "rfind p CHR ''.'' = int (length pre)"
    by blast
  from gt p(2) rfind_lower_bound [of p "CHR ''/''"]
  have le: "nat (rfind p CHR ''/'' + 1) \<le> length pre" by linarith
  have "drop (nat (rfind p CHR ''/'' + 1)) p
          = drop (nat (rfind p CHR ''/'' + 1)) pre @ CHR ''.'' # post"
    using le p(1) by (metis drop_append diff_is_0_eq drop_0)
  then have "CHR ''.'' \<in> set (basename p)"
    by (simp add: basename_def slice_from_def)
  with assms show False by simp
qed

lemma splitext_no_dot:
  assumes "CHR ''.'' \<notin> set (basename p)"
  shows "splitext p = (p, [])"
  using no_dot_in_basename [OF assms] by (simp add: splitext_def slice_to_def)

section \<open>The dispatcher on unregistered extensions\<close>

lemma supported_extensions_empty: "map_of supported_extensions [] = None"
  by (simp add: supported_extensions_def)

text \<open>
  C9. For every file path whose final component contains no dot, hence no extension,
  \<open>extract_metadata\<close> returns the mapping \<open>{"error": "Unsupported file type: "}\<close>, the
  reported extension being the empty string; it does not raise and there is no separate
  error for a missing extension.
\<close>

theorem no_extension_is_unsupported:
  assumes "CHR ''.'' \<notin> set (basename file_path)"
  shows "extract_metadata w file_path = Inr [(''error'', JStr ''Unsupported file type: '')]"
  using splitext_no_dot [OF assms]
  by (simp add: extract_metadata_def lower_def supported_extensions_empty error_result_def)

theorem no_extension_is_unsupported_witness:
  "CHR ''.'' \<notin> set (basename ''/home/user/Makefile'')
   \<and> extract_metadata no_files ''/home/user/Makefile''
       = Inr [(''error'', JStr ''Unsupported file type: '')]"
proof -
  have h: "CHR ''.'' \<notin> set (basename ''/home/user/Makefile'')"
    by code_simp
  show ?thesis
    using h no_extension_is_unsupported [OF h, of no_files] by simp
qed

text \<open>
  C3, as amended. The dispatcher looks the lower-cased extension up. For every path whose
  lower-cased extension is not in the dispatch table, \<open>extract_metadata\<close> returns a
  mapping whose only key is \<open>error\<close> and whose message is \<open>Unsupported file type: \<close>
  followed by the lower-cased extension; the message contains the lower-cased extension,
  which is the literal extension of the path when that has no capital letter.
\<close>

theorem unsupported_extension_error:
  assumes "lower (snd (splitext file_path)) \<notin> set (map fst supported_extensions)"
  shows "extract_metadata w file_path
           = Inr [(''error'', JStr (''Unsupported file type: '' @ lower (snd (splitext file_path))))]
         \<and> sublist (lower (snd (splitext file_path)))
              (''Unsupported file type: '' @ lower (snd (splitext file_path)))"
proof -
  from assms have "map_of supported_extensions (lower (snd (splitext file_path))) = None"
    by (simp add: map_of_eq_None_iff)
  then have "extract_metadata w file_path
           = Inr [(''error'', JStr (''Unsupported file type: '' @ lower (snd (splitext file_path))))]"
    by (simp add: extract_metadata_def error_result_def)
  moreover have "sublist (lower (snd (splitext file_path)))
              (''Unsupported file type: '' @ lower (snd (splitext file_path)))"
    by (rule sublist_append_leftI)
  ultimately show ?thesis by blast
qed

theorem unsupported_extension_error_witness:
  "lower (snd (splitext ''notes/report.XYZ'')) \<notin> set (map fst supported_extensions)
   \<and> extract_metadata no_files ''notes/report.XYZ''
       = Inr [(''error'', JStr ''Unsupported file type: .xyz'')]
   \<and> sublist ''.xyz'' ''Unsupported file type: .xyz''"
proof -
  have h: "lower (snd (splitext ''notes/report.XYZ'')) \<notin> set (map fst supported_extensions)"
    by code_simp
  have l: "lower (snd (splitext ''notes/report.XYZ'')) = ''.xyz''"
    by code_simp
  show ?thesis
    using h unsupported_extension_error [OF h, of no_files] unfolding l by simp
qed

text \<open>
  C3 as stated fails on an extension with capital letters: the extension taken from the
  path \<open>notes/report.XYZ\<close> is \<open>.XYZ\<close>, it is not in the dispatch table, and the message
  of the error result does not contain it.
\<close>

theorem literal_extension_counterexample:
  "snd (splitext ''notes/report.XYZ'') = ''.XYZ''
   \<and> ''.XYZ'' \<notin> set (map fst supported_extensions)
   \<and> extract_metadata no_files ''notes/report.XYZ''
       = Inr [(''error'', JStr ''Unsupported file type: .xyz'')]
   \<and> \<not> sublist ''.XYZ'' ''Unsupported file type: .xyz''"
  by code_simp

section \<open>Exceptions stay inside the extractors\<close>

text \<open>Each extractor returns what its body returns, or the error mapping of its format.\<close>

lemma extract_pdf_metadata_cases:
  "extract_pdf_metadata w p =
     (case pdf_body w p of
        Inl e \<Rightarrow> Inr [(''error'', JStr (''Failed to extract PDF metadata: '' @ exn_str e))]
      | Inr m \<Rightarrow> Inr m)"
  by (simp add: extract_pdf_metadata_def try_except_def error_result_def split: sum.splits)

lemma extract_docx_metadata_cases:
  "extract_docx_metadata w p =
     (case docx_body w p of
        Inl e \<Rightarrow> Inr [(''error'', JStr (''Failed to extract Word metadata: '' @ exn_str e))]
      | Inr m \<Rightarrow> Inr m)"
  by (simp add: extract_docx_metadata_def try_except_def error_result_def split: sum.splits)

lemma extract_xlsx_metadata_cases:
  "extract_xlsx_metadata w p =
     (case xlsx_body w p of
        Inl e \<Rightarrow> Inr [(''error'', JStr (''Failed to extract Excel metadata: '' @ exn_str e))]
      | Inr m \<Rightarrow> Inr m)"
  by (simp add: extract_xlsx_metadata_def try_except_def error_result_def split: sum.splits)

lemma extract_pptx_metadata_cases:
  "extract_pptx_metadata w p =
     (case pptx_body w p of
        Inl e \<Rightarrow> Inr [(''error'', JStr (''Failed to extract PowerPoint metadata: '' @ exn_str e))]
      | Inr m \<Rightarrow> Inr m)"
  by (simp add: extract_pptx_metadata_def try_except_def error_result_def split: sum.splits)

lemma extract_image_metadata_cases:
  "extract_image_metadata w p =
     (case image_body w p of
        Inl e \<Rightarrow> Inr [(''error'', JStr (''Failed to extract image metadata: '' @ exn_str e))]
      | Inr m \<Rightarrow> Inr m)"
  by (simp add: extract_image_metadata_def try_except_def error_result_def split: sum.splits)

lemma extract_email_metadata_cases:
  "extract_email_metadata w p =
     (case email_body w p of
        Inl e \<Rightarrow> Inr [(''error'', JStr (''Failed to extract email metadata: '' @ exn_str e))]
      | Inr m \<Rightarrow> Inr m)"
  by (simp add: extract_email_metadata_def try_except_def error_result_def split: sum.splits)

lemma extract_csv_metadata_cases:
  "extract_csv_metadata w p =
     (case csv_body w p of
        Inl e \<Rightarrow> Inr [(''error'', JStr (''Failed to extract CSV metadata: '' @ exn_str e))]
      | Inr m \<Rightarrow> Inr m)"
  by (simp add: extract_csv_metadata_def try_except_def error_result_def split: sum.splits)

lemmas extractor_cases =
  extract_pdf_metadata_cases extract_docx_metadata_cases extract_xlsx_metadata_cases
  extract_pptx_metadata_cases extract_image_metadata_cases extract_email_metadata_cases
  extract_csv_metadata_cases

lemma registered_handlers:
  assumes "map_of supported_extensions x = Some h"
  shows "h \<in> {extract_pdf_metadata, extract_docx_metadata, extract_xlsx_metadata,
              extract_pptx_metadata, extract_image_metadata, extract_email_metadata,
              extract_csv_metadata}"
  using assms by (auto simp: supported_extensions_def split: if_splits)

lemma registered_handler_returns:
  assumes "map_of supported_extensions x = Some h"
  shows "\<exists>m. h w p = Inr m"
  using registered_handlers [OF assms]
  by (auto simp: extractor_cases split: sum.splits)

lemma extract_metadata_returns: "\<exists>m. extract_metadata w p = Inr m"
proof (cases "map_of supported_extensions (lower (snd (splitext p)))")
  case None
  then show ?thesis by (simp add: extract_metadata_def)
next
  case (Some h)
  with registered_handler_returns [OF Some, of w p] show ?thesis
    by (simp add: extract_metadata_def)
qed

lemma pdf_body_raises_on_open:
  assumes "file_open w p = Inl e"
  shows "pdf_body w p = Inl e"
  using assms by (simp add: pdf_body_def)

lemma pdf_body_raises_on_read:
  assumes "file_open w p = Inr file" and "PdfReader w file = Inl e"
  shows "pdf_body w p = Inl e"
  using assms by (simp add: pdf_body_def)

lemma dispatch_pdf:
  assumes "lower (snd (splitext p)) = ''.pdf''"
  shows "extract_metadata w p = extract_pdf_metadata w p"
  using assms by (simp add: extract_metadata_def supported_extensions_def)

text \<open>
  C2. For every file path \<open>extract_metadata\<close> returns a mapping and raises nothing. An
  exception raised in the body of an extractor (by \<open>open\<close>, by the parsing library, by
  an index out of range) is caught in that extractor and becomes the single-key mapping
  \<open>{"error": message}\<close> with the message of the format. In particular a path with the
  extension \<open>.pdf\<close> that cannot be opened, or whose content the PDF reader rejects,
  gives an error result whose message starts with \<open>Failed to extract PDF metadata: \<close>.
\<close>

theorem extraction_never_raises:
  "(\<exists>m. extract_metadata w p = Inr m)
   \<and> (pdf_body w p = Inl e \<longrightarrow> extract_pdf_metadata w p
        = Inr [(''error'', JStr (''Failed to extract PDF metadata: '' @ exn_str e))])
   \<and> (docx_body w p = Inl e \<longrightarrow> extract_docx_metadata w p
        = Inr [(''error'', JStr (''Failed to extract Word metadata: '' @ exn_str e))])
   \<and> (xlsx_body w p = Inl e \<longrightarrow> extract_xlsx_metadata w p
        = Inr [(''error'', JStr (''Failed to extract Excel metadata: '' @ exn_str e))])
   \<and> (pptx_body w p = Inl e \<longrightarrow> extract_pptx_metadata w p
        = Inr [(''error'', JStr (''Failed to extract PowerPoint metadata: '' @ exn_str e))])
   \<and> (image_body w p = Inl e \<longrightarrow> extract_image_metadata w p
        = Inr [(''error'', JStr (''Failed to extract image metadata: '' @ exn_str e))])
   \<and> (email_body w p = Inl e \<longrightarrow> extract_email_metadata w p
        = Inr [(''error'', JStr (''Failed to extract email metadata: '' @ exn_str e))])
   \<and> (csv_body w p = Inl e \<longrightarrow> extract_csv_metadata w p
        = Inr [(''error'', JStr (''Failed to extract CSV metadata: '' @ exn_str e))])
   \<and> (lower (snd (splitext p)) = ''.pdf''
        \<and> (file_open w p = Inl e \<or> (\<exists>file. file_open w p = Inr file \<and> PdfReader w file = Inl e))
      \<longrightarrow> extract_metadata w p
        = Inr [(''error'', JStr (''Failed to extract PDF metadata: '' @ exn_str e))])"
proof -
  have pdf: "extract_metadata w p
               = Inr [(''error'', JStr (''Failed to extract PDF metadata: '' @ exn_str e))]"
    if ext: "lower (snd (splitext p)) = ''.pdf''"
      and bad: "file_open w p = Inl e \<or> (\<exists>file. file_open w p = Inr file \<and> PdfReader w file = Inl e)"
  proof -
    from bad have "pdf_body w p = Inl e"
      using pdf_body_raises_on_open pdf_body_raises_on_read by blast
    then show ?thesis
      by (simp add: dispatch_pdf [OF ext] extract_pdf_metadata_cases)
  qed
  show ?thesis
    using extract_metadata_returns [of w p] pdf
    by (simp add: extractor_cases)
qed

theorem extraction_never_raises_witness:
  "lower (snd (splitext ''scans/missing.pdf'')) = ''.pdf''
   \<and> file_open no_files ''scans/missing.pdf'' = Inl enoent
   \<and> pdf_body no_files ''scans/missing.pdf'' = Inl enoent
   \<and> docx_body no_files ''scans/missing.pdf'' = Inl enoent
   \<and> xlsx_body no_files ''scans/missing.pdf'' = Inl enoent
   \<and> pptx_body no_files ''scans/missing.pdf'' = Inl enoent
   \<and> image_body no_files ''scans/missing.pdf'' = Inl enoent
   \<and> email_body no_files ''scans/missing.pdf'' = Inl enoent
   \<and> csv_body no_files ''scans/missing.pdf'' = Inl enoent
   \<and> extract_docx_metadata no_files ''scans/missing.pdf''
       = Inr [(''error'', JStr ''Failed to extract Word metadata: [Errno 2] No such file or directory'')]
   \<and> extract_metadata no_files ''scans/missing.pdf''
       = Inr [(''error'', JStr ''Failed to extract PDF metadata: [Errno 2] No such file or directory'')]"
proof -
  have ext: "lower (snd (splitext ''scans/missing.pdf'')) = ''.pdf''"
    by code_simp
  have bodies:
    "file_open no_files ''scans/missing.pdf'' = Inl enoent"
    "pdf_body no_files ''scans/missing.pdf'' = Inl enoent"
    "docx_body no_files ''scans/missing.pdf'' = Inl enoent"
    "xlsx_body no_files ''scans/missing.pdf'' = Inl enoent"
    "pptx_body no_files ''scans/missing.pdf'' = Inl enoent"
    "image_body no_files ''scans/missing.pdf'' = Inl enoent"
    "email_body no_files ''scans/missing.pdf'' = Inl enoent"
    "csv_body no_files ''scans/missing.pdf'' = Inl enoent"
    by (simp_all add: no_files_def pdf_body_def docx_body_def xlsx_body_def pptx_body_def
          image_body_def email_body_def csv_body_def)
  have msg: "exn_str enoent = ''[Errno 2] No such file or directory''"
    by (simp add: enoent_def)
  show ?thesis
    using extraction_never_raises [of no_files "''scans/missing.pdf''" enoent] ext bodies
    by (simp add: msg)
qed

section \<open>Absent optional parts\<close>

text \<open>An image without EXIF data gives its three base fields.\<close>

lemma image_without_exif:
  assumes "Image_open w p = Inr img" and "img_getexif img = Inr None"
  shows "extract_image_metadata w p =
           Inr [(''format'', opt_value (img_format img)),
                (''size'', JStr (nat_str (img_width img) @ ''x'' @ nat_str (img_height img))),
                (''mode'', opt_value (img_mode img))]"
  using assms by (simp add: extract_image_metadata_def image_body_def dict_set_def)

text \<open>A Word document without paragraphs gives an empty preview.\<close>

lemma docx_without_paragraphs:
  assumes "Document w p = Inr doc" and "docx_paragraphs doc = []"
  shows "extract_docx_metadata w p =
           Inr [(''author'', opt_value (docx_author doc)),
                (''created'', JStr (py_str (docx_created doc))),
                (''last_modified_by'', opt_value (docx_last_modified_by doc)),
                (''modified'', JStr (py_str (docx_modified doc))),
                (''title'', opt_value (docx_title doc)),
                (''paragraph_count'', JInt 0),
                (''text_preview'', JStr [])]"
  using assms by (simp add: extract_docx_metadata_def docx_body_def dict_set_def)

text \<open>A PDF file without a document information dictionary gives the two page fields.\<close>

lemma pdf_without_info:
  assumes "file_open w p = Inr file" and "PdfReader w file = Inr pdf"
    and "pdf_metadata pdf = Inr None" and "pdf_pages pdf = Inr (Inr text # pages)"
  shows "extract_pdf_metadata w p =
           Inr [(''page_count'', JInt (1 + int (length pages))),
                (''first_page_preview'', JStr (take 200 text))]"
  using assms
  by (simp add: extract_pdf_metadata_def pdf_body_def dict_set_def first_item_def slice_to_def)

text \<open>An empty CSV file gives zero columns and zero rows.\<close>

lemma csv_without_rows:
  assumes "file_open w p = Inr csvfile"
    and "csv_reader_of w csvfile = \<lparr>csv_rows = [], csv_error = None\<rparr>"
  shows "extract_csv_metadata w p =
           Inr [(''column_count'', JInt 0), (''column_names'', JList []), (''row_count'', JInt 0)]"
  using assms
  by (simp add: extract_csv_metadata_def csv_body_def csv_next_def csv_count_def dict_set_def)

text \<open>
  A PDF file without pages: the page count is stored, then \<^verbatim>\<open>pdf.pages[0]\<close> raises
  \<^verbatim>\<open>IndexError\<close> and the whole result is the error mapping.
\<close>

lemma pdf_without_pages:
  assumes "file_open w p = Inr file" and "PdfReader w file = Inr pdf"
    and "pdf_metadata pdf = Inr info" and "pdf_pages pdf = Inr []"
  shows "extract_pdf_metadata w p =
           Inr [(''error'', JStr ''Failed to extract PDF metadata: sequence index out of range'')]"
  using assms
  by (simp add: extract_pdf_metadata_def pdf_body_def first_item_def error_result_def)

text \<open>
  C5. The claim: an input whose optional part is absent (an image without EXIF data, a
  PDF file with zero pages, a Word file with zero paragraphs) gives a successful mapping
  with the field left out or empty, not an error result. The Word and image extractors
  do so; the PDF extractor does not: on a well-formed PDF file with zero pages
  \<open>extract_metadata\<close> returns the error mapping.
\<close>

theorem zero_page_pdf_gives_error:
  "extract_metadata zero_page_pdf_world ''empty.pdf''
     = Inr [(''error'', JStr ''Failed to extract PDF metadata: sequence index out of range'')]"
  by code_simp

section \<open>Saving and listing records\<close>

lemma fold_max_bounds:
  shows "(s::int) \<le> fold max xs s" "\<forall>x\<in>set xs. x \<le> fold max xs s"
proof -
  have "s \<le> fold max xs s \<and> (\<forall>x\<in>set xs. x \<le> fold max xs s)"
  proof (induction xs arbitrary: s)
    case Nil
    then show ?case by simp
  next
    case (Cons x xs)
    from Cons.IH [of "max x s"] show ?case by auto
  qed
  then show "s \<le> fold max xs s" and "\<forall>x\<in>set xs. x \<le> fold max xs s"
    by blast+
qed

text \<open>What a completed \<open>save_metadata\<close> has done: one row appended, with a new largest id.\<close>

lemma save_metadata_completed:
  assumes "save_metadata db now file_path metadata metadata_hash = Inr (db', rid)"
  shows "db_rows db' = db_rows db @
           [\<lparr>r_id = rid, r_file_path = file_path, r_file_name = basename file_path,
             r_metadata_hash = metadata_hash, r_timestamp = isoformat now,
             r_metadata_json = json_dumps metadata False\<rparr>]"
    "db_seq db' = rid"
    "db_seq db < rid"
    "\<forall>r\<in>set (db_rows db). r_id r < rid"
proof -
  let ?largest = "fold max (map r_id (db_rows db)) (db_seq db)"
  from assms have ok: "\<not> 2 ^ 63 - 1 \<le> ?largest"
    by (auto simp: save_metadata_def next_rowid_def Let_def split: if_splits)
  with assms have rid: "rid = ?largest + 1"
    by (auto simp: save_metadata_def next_rowid_def Let_def)
  from assms ok
  show "db_rows db' = db_rows db @
           [\<lparr>r_id = rid, r_file_path = file_path, r_file_name = basename file_path,
             r_metadata_hash = metadata_hash, r_timestamp = isoformat now,
             r_metadata_json = json_dumps metadata False\<rparr>]"
    by (auto simp: save_metadata_def next_rowid_def Let_def)
  from assms ok show "db_seq db' = rid"
    by (auto simp: save_metadata_def next_rowid_def Let_def)
  from fold_max_bounds(1) [of "db_seq db" "map r_id (db_rows db)"] rid
  show "db_seq db < rid" by simp
  from fold_max_bounds(2) [of "map r_id (db_rows db)" "db_seq db"] rid
  show "\<forall>r\<in>set (db_rows db). r_id r < rid" by fastforce
qed

text \<open>
  C10. For every call of \<open>save_metadata\<close> that completes, the new row has the given
  path, unchanged, in \<open>file_path\<close> and the final component of that path in
  \<open>file_name\<close>: the path is some directory part, empty or ending in a slash, followed
  by the file name, and the file name has no slash.
\<close>

theorem save_stores_path_and_basename:
  assumes "save_metadata db now file_path metadata metadata_hash = Inr (db', rid)"
  shows "\<exists>r. db_rows db' = db_rows db @ [r] \<and> r_id r = rid
           \<and> r_file_path r = file_path
           \<and> r_file_name r = basename file_path
           \<and> (\<exists>dir. file_path = dir @ r_file_name r \<and> (dir = [] \<or> last dir = CHR ''/''))
           \<and> CHR ''/'' \<notin> set (r_file_name r)"
  using save_metadata_completed(1) [OF assms] basename_is_final_component [of file_path]
  by simp

theorem save_stores_path_and_basename_witness:
  "save_metadata stale_db clock_0110 ''/docs/b.csv'' [] ''abc''
     = Inr (stale_db\<lparr>db_rows := db_rows stale_db @
              [\<lparr>r_id = 2, r_file_path = ''/docs/b.csv'', r_file_name = ''b.csv'',
                r_metadata_hash = ''abc'', r_timestamp = ''2024-11-03T01:10:00'',
                r_metadata_json = ''{}''\<rparr>], db_seq := 2\<rparr>, 2)
   \<and> (\<exists>r. db_rows (stale_db\<lparr>db_rows := db_rows stale_db @
              [\<lparr>r_id = 2, r_file_path = ''/docs/b.csv'', r_file_name = ''b.csv'',
                r_metadata_hash = ''abc'', r_timestamp = ''2024-11-03T01:10:00'',
                r_metadata_json = ''{}''\<rparr>], db_seq := 2\<rparr>) = db_rows stale_db @ [r]
          \<and> r_id r = 2 \<and> r_file_path r = ''/docs/b.csv'' \<and> r_file_name r = ''b.csv'')"
proof -
  have s: "save_metadata stale_db clock_0110 ''/docs/b.csv'' [] ''abc''
     = Inr (stale_db\<lparr>db_rows := db_rows stale_db @
              [\<lparr>r_id = 2, r_file_path = ''/docs/b.csv'', r_file_name = ''b.csv'',
                r_metadata_hash = ''abc'', r_timestamp = ''2024-11-03T01:10:00'',
                r_metadata_json = ''{}''\<rparr>], db_seq := 2\<rparr>, 2)"
    by code_simp
  have b: "basename ''/docs/b.csv'' = ''b.csv''"
    by code_simp
  from save_stores_path_and_basename [OF s] b s show ?thesis
    by auto
qed

subsection \<open>Listing\<close>

lemma insort_key_greatest:
  assumes "\<forall>x\<in>set xs. f x < f a"
  shows "insort_key f a xs = xs @ [a]"
  using assms by (induction xs) auto

lemma order_by_timestamp_desc_mset: "mset (order_by_timestamp_desc rs) = mset rs"
  by (simp add: order_by_timestamp_desc_def)

lemma order_by_timestamp_desc_sorted:
  "sorted_wrt (\<lambda>a b. r_timestamp b \<le> r_timestamp a) (order_by_timestamp_desc rs)"
proof -
  have "sorted (map r_timestamp (sort_key r_timestamp (rev rs)))"
    by (rule sorted_sort_key)
  then have "sorted_wrt (\<lambda>a b. r_timestamp a \<le> r_timestamp b) (sort_key r_timestamp (rev rs))"
    by (simp add: sorted_map)
  then show ?thesis
    by (simp add: order_by_timestamp_desc_def sorted_wrt_rev)
qed

lemma order_by_timestamp_desc_newest:
  assumes "\<forall>r\<in>set rs. r_timestamp r < r_timestamp new"
  shows "order_by_timestamp_desc (rs @ [new]) = new # order_by_timestamp_desc rs"
proof -
  have "sort_key r_timestamp (new # rev rs)
          = insort_key r_timestamp new (sort_key r_timestamp (rev rs))"
    by simp
  also have "\<dots> = sort_key r_timestamp (rev rs) @ [new]"
    using assms by (intro insort_key_greatest) simp
  finally show ?thesis
    by (simp add: order_by_timestamp_desc_def)
qed

text \<open>
  C4, as amended. After \<open>save_metadata\<close> completes, \<open>get_all_metadata\<close> returns all
  stored records, the just-saved one among them with the hash that was passed, ordered
  by timestamp descending; and when the timestamp taken by the save is greater than the
  timestamp of every record stored before, the just-saved record is the first of the
  list.
\<close>

theorem list_after_save:
  assumes "save_metadata db now file_path metadata metadata_hash = Inr (db', rid)"
  shows "\<exists>new. r_id new = rid \<and> r_metadata_hash new = metadata_hash
           \<and> r_timestamp new = isoformat now
           \<and> mset (get_all_metadata db') = mset (db_rows db) + {#new#}
           \<and> sorted_wrt (\<lambda>a b. r_timestamp b \<le> r_timestamp a) (get_all_metadata db')
           \<and> ((\<forall>r\<in>set (db_rows db). r_timestamp r < isoformat now)
                \<longrightarrow> get_all_metadata db' = new # get_all_metadata db)"
proof -
  let ?new = "\<lparr>r_id = rid, r_file_path = file_path, r_file_name = basename file_path,
               r_metadata_hash = metadata_hash, r_timestamp = isoformat now,
               r_metadata_json = json_dumps metadata False\<rparr>"
  have rows: "db_rows db' = db_rows db @ [?new]"
    by (rule save_metadata_completed(1) [OF assms])
  have "mset (get_all_metadata db') = mset (db_rows db) + {#?new#}"
    by (simp add: get_all_metadata_def order_by_timestamp_desc_mset rows)
  moreover have "sorted_wrt (\<lambda>a b. r_timestamp b \<le> r_timestamp a) (get_all_metadata db')"
    by (simp add: get_all_metadata_def order_by_timestamp_desc_sorted)
  moreover have "get_all_metadata db' = ?new # get_all_metadata db"
    if "\<forall>r\<in>set (db_rows db). r_timestamp r < isoformat now"
    using that order_by_timestamp_desc_newest [of "db_rows db" ?new]
    by (simp add: get_all_metadata_def rows)
  ultimately show ?thesis
    by (intro exI [of _ ?new]) simp
qed

theorem list_after_save_witness:
  "save_metadata stale_db clock_0150 ''/docs/b.csv'' [] ''abc''
     = Inr (stale_db\<lparr>db_rows := db_rows stale_db @
              [\<lparr>r_id = 2, r_file_path = ''/docs/b.csv'', r_file_name = ''b.csv'',
                r_metadata_hash = ''abc'', r_timestamp = ''2024-11-03T01:50:00.000250'',
                r_metadata_json = ''{}''\<rparr>], db_seq := 2\<rparr>, 2)
   \<and> map r_timestamp (db_rows stale_db) = [''2024-11-03T01:30:00'']
   \<and> ''2024-11-03T01:30:00'' < isoformat clock_0150
   \<and> map r_id (get_all_metadata (stale_db\<lparr>db_rows := db_rows stale_db @
              [\<lparr>r_id = 2, r_file_path = ''/docs/b.csv'', r_file_name = ''b.csv'',
                r_metadata_hash = ''abc'', r_timestamp = ''2024-11-03T01:50:00.000250'',
                r_metadata_json = ''{}''\<rparr>], db_seq := 2\<rparr>)) = [2, 1]"
proof -
  let ?db' = "stale_db\<lparr>db_rows := db_rows stale_db @
              [\<lparr>r_id = 2, r_file_path = ''/docs/b.csv'', r_file_name = ''b.csv'',
                r_metadata_hash = ''abc'', r_timestamp = ''2024-11-03T01:50:00.000250'',
                r_metadata_json = ''{}''\<rparr>], db_seq := 2\<rparr>"
  have s: "save_metadata stale_db clock_0150 ''/docs/b.csv'' [] ''abc''
             = Inr (?db', 2)"
    by code_simp
  have later: "\<forall>r\<in>set (db_rows stale_db).
                 r_timestamp r < isoformat clock_0150"
    by code_simp
  have old: "map r_id (get_all_metadata stale_db) = [1]"
    by code_simp
  have stored: "map r_timestamp (db_rows stale_db) = [''2024-11-03T01:30:00'']"
    by code_simp
  have less: "''2024-11-03T01:30:00'' < isoformat clock_0150"
    by code_simp
  from list_after_save [OF s] later obtain new
    where "r_id new = 2" and "get_all_metadata ?db' = new # get_all_metadata stale_db"
    by blast
  then have "map r_id (get_all_metadata ?db') = [2, 1]"
    using old by simp
  with s stored less show ?thesis by simp
qed

text \<open>
  C4 as stated fails when the clock reads an earlier time than a stored timestamp (local
  time steps back when daylight saving time ends): the save completes with id 2, and the
  list starts with the older record 1.
\<close>

theorem newest_first_counterexample:
  "\<not> isl (save_metadata stale_db clock_0110 ''/docs/b.csv'' [] ''abc'')
   \<and> snd (projr (save_metadata stale_db clock_0110 ''/docs/b.csv'' [] ''abc'')) = 2
   \<and> map r_id (get_all_metadata
        (fst (projr (save_metadata stale_db clock_0110 ''/docs/b.csv'' [] ''abc'')))) = [1, 2]"
  by code_simp

section \<open>The metadata hash\<close>

subsection \<open>The shape of the digest\<close>

lemma nibble_bound: "unat ((x::32 word) AND 0xF) < 16"
proof -
  have m: "(0xF::32 word) = mask 4" by (simp add: mask_eq_exp_minus_1)
  have "unat (x AND mask 4) = take_bit 4 (unat x)"
    by (simp add: unsigned_take_bit_eq flip: take_bit_eq_mask)
  then have "unat (x AND 0xF) = take_bit 4 (unat x)"
    unfolding m .
  also have "\<dots> < 2 ^ 4" by (rule take_bit_nat_less_exp)
  finally show ?thesis by simp
qed

lemma hex_char_in: "n < 16 \<Longrightarrow> hex_char n \<in> set ''0123456789abcdef''"
  unfolding hex_char_def by (rule nth_mem) simp

lemma length_hex32: "length (hex32 x) = 8"
  by (simp add: hex32_def)

lemma set_hex32: "set (hex32 x) \<subseteq> set ''0123456789abcdef''"
proof
  fix c assume "c \<in> set (hex32 x)"
  then have "c \<in> (\<lambda>i. hex_char (unat (drop_bit (4 * i) x AND 0xF))) ` set [7, 6, 5, 4, 3, 2, 1, 0]"
    unfolding hex32_def set_map .
  then obtain i where "c = hex_char (unat (drop_bit (4 * i) x AND 0xF))"
    by blast
  then show "c \<in> set ''0123456789abcdef''"
    using hex_char_in [OF nibble_bound] by simp
qed

lemma sha_state_fields:
  obtains h0 h1 h2 h3 h4 h5 h6 h7 where "(H::sha_state) = (h0, h1, h2, h3, h4, h5, h6, h7)"
  by (metis surj_pair)

lemma length_hexdigest: "length (hexdigest H) = 64"
proof -
  obtain h0 h1 h2 h3 h4 h5 h6 h7 where "H = (h0, h1, h2, h3, h4, h5, h6, h7)"
    by (rule sha_state_fields)
  then show ?thesis
    by (simp add: hexdigest_def length_hex32)
qed

lemma set_hexdigest: "set (hexdigest H) \<subseteq> set ''0123456789abcdef''"
proof -
  obtain h0 h1 h2 h3 h4 h5 h6 h7 where fields: "H = (h0, h1, h2, h3, h4, h5, h6, h7)"
    by (rule sha_state_fields)
  have "set (concat (map hex32 ws)) \<subseteq> set ''0123456789abcdef''" for ws
    using set_hex32 by (induction ws) auto
  then show ?thesis
    by (simp only: fields hexdigest_def prod.case)
qed

text \<open>
  C8. For every metadata mapping the hash is a string of 64 characters, each a lowercase
  hexadecimal digit: the eight 32-bit words of the SHA-256 digest in hexadecimal.
\<close>

theorem hash_is_64_hex_digits:
  "length (hash_metadata m) = 64 \<and> set (hash_metadata m) \<subseteq> set ''0123456789abcdef''"
  by (simp only: hash_metadata_def Let_def length_hexdigest set_hexdigest simp_thms)

theorem hash_is_64_hex_digits_witness:
  "length (hash_metadata [(''page_count'', JInt 3), (''author'', JStr ''Ann'')]) = 64
   \<and> set (hash_metadata [(''page_count'', JInt 3), (''author'', JStr ''Ann'')])
        \<subseteq> set ''0123456789abcdef''"
  by (rule hash_is_64_hex_digits)

text \<open>The model against Python: \<^verbatim>\<open>hashlib.sha256(json.dumps({}, sort_keys=True).encode())\<close>.\<close>

lemma hash_of_empty_mapping:
  "hash_metadata [] = ''44136fa355b3678a1146ad16f7e8649e94fb4fc21fe77e8310c060f61caaff8a''"
  by code_simp

subsection \<open>Insertion order\<close>

text \<open>Two dictionaries with the same items have the same sorted items.\<close>

lemma sorted_items_unique:
  assumes "distinct (map fst m1)" and "distinct (map fst m2)" and "set m1 = set m2"
  shows "sort_key fst m1 = sort_key fst m2"
proof (rule sort_key_inj_key_eq)
  from assms have "distinct m1" "distinct m2"
    by (auto simp: distinct_map)
  with assms(3) have "mset m1 = mset m2"
    by (simp add: set_eq_iff_mset_eq_distinct)
  then show "mset m1 = mset (sort_key fst m2)" by simp
  from assms(1) show "inj_on fst (set m1)" by (simp add: distinct_map)
  show "sorted (map fst (sort_key fst m2))" by simp
qed

lemma hash_ignores_insertion_order:
  assumes "distinct (map fst m1)" and "distinct (map fst m2)" and "set m1 = set m2"
  shows "hash_metadata m1 = hash_metadata m2"
  using sorted_items_unique [OF assms]
  by (simp add: hash_metadata_def json_dumps_def)

text \<open>
  C1. Two metadata mappings that hold the same key/value pairs (each a dictionary, so
  its keys are distinct) have the same hash, whatever the order in which the pairs were
  inserted.
\<close>

theorem hash_metadata_order_independent:
  assumes "distinct (map fst m1)" and "distinct (map fst m2)" and "set m1 = set m2"
  shows "hash_metadata m1 = hash_metadata m2"
  by (rule hash_ignores_insertion_order [OF assms])

theorem hash_metadata_order_independent_witness:
  "distinct (map fst [(''page_count'', JInt 3), (''author'', JStr ''Ann'')])
   \<and> distinct (map fst [(''author'', JStr ''Ann''), (''page_count'', JInt 3)])
   \<and> set [(''page_count'', JInt 3), (''author'', JStr ''Ann'')]
       = set [(''author'', JStr ''Ann''), (''page_count'', JInt 3)]
   \<and> [(''page_count'', JInt 3), (''author'', JStr ''Ann'')]
       \<noteq> [(''author'', JStr ''Ann''), (''page_count'', JInt 3)]
   \<and> hash_metadata [(''page_count'', JInt 3), (''author'', JStr ''Ann'')]
       = hash_metadata [(''author'', JStr ''Ann''), (''page_count'', JInt 3)]"
proof -
  have d1: "distinct (map fst [(''page_count'', JInt 3), (''author'', JStr ''Ann'')])"
    by simp
  have d2: "distinct (map fst [(''author'', JStr ''Ann''), (''page_count'', JInt 3)])"
    by simp
  have s: "set [(''page_count'', JInt 3), (''author'', JStr ''Ann'')]
             = set [(''author'', JStr ''Ann''), (''page_count'', JInt 3)]"
    by auto
  have n: "[(''page_count'', JInt 3), (''author'', JStr ''Ann'')]
             \<noteq> [(''author'', JStr ''Ann''), (''page_count'', JInt 3)]"
    by simp
  from hash_metadata_order_independent [OF d1 d2 s] d1 d2 s n show ?thesis
    by blast
qed

section \<open>Timestamps determine the clock reading\<close>

lemma digit_val_digit_char: "d < 10 \<Longrightarrow> digit_val (digit_char d) = d"
proof -
  assume "d < 10"
  then have "d \<in> {0, 1, 2, 3, 4, 5, 6, 7, 8, 9}" by auto
  then show ?thesis
    by (auto simp: digit_val_def digit_char_def)
qed

lemma decimal_value_snoc:
  "decimal_value (s @ [c]) = 10 * decimal_value s + digit_val c"
  by (simp add: decimal_value_def)

lemma decimal_value_nat_str: "decimal_value (nat_str n) = n"
proof (induction n rule: nat_str.induct)
  case (1 n)
  show ?case
  proof (cases "n < 10")
    case True
    then show ?thesis
      by (simp add: nat_str.simps [of n] decimal_value_def digit_val_digit_char)
  next
    case False
    with "1.IH" have "decimal_value (nat_str (n div 10)) = n div 10" by simp
    with False show ?thesis
      by (simp add: nat_str.simps [of n] decimal_value_snoc digit_val_digit_char)
  qed
qed

lemma decimal_value_zeros: "decimal_value (replicate j CHR ''0'' @ s) = decimal_value s"
proof -
  have "foldl (\<lambda>a c. 10 * a + digit_val c) 0 (replicate j CHR ''0'') = 0"
    by (induction j) (simp_all add: digit_val_def)
  then show ?thesis
    by (simp add: decimal_value_def)
qed

lemma decimal_value_zero_pad: "decimal_value (zero_pad k n) = n"
  by (simp add: zero_pad_def decimal_value_zeros decimal_value_nat_str)

lemma zero_pad_inj: "zero_pad k n = zero_pad k m \<Longrightarrow> n = m"
  by (metis decimal_value_zero_pad)

lemma length_nat_str: "n < 10 ^ k \<Longrightarrow> 0 < k \<Longrightarrow> length (nat_str n) \<le> k"
proof (induction n arbitrary: k rule: nat_str.induct)
  case (1 n)
  show ?case
  proof (cases "n < 10")
    case True
    with "1.prems" show ?thesis
      by (simp add: nat_str.simps [of n])
  next
    case False
    with "1.prems" obtain j where k: "k = Suc j"
      by (cases k) auto
    with False "1.prems" have "0 < j"
      by (cases j) auto
    moreover from k "1.prems" have "n div 10 < 10 ^ j"
      by (simp add: less_mult_imp_div_less mult.commute)
    ultimately have "length (nat_str (n div 10)) \<le> j"
      using "1.IH" False by simp
    with False k show ?thesis
      by (simp add: nat_str.simps [of n])
  qed
qed

lemma length_zero_pad: "n < 10 ^ k \<Longrightarrow> 0 < k \<Longrightarrow> length (zero_pad k n) = k"
  using length_nat_str [of n k] by (simp add: zero_pad_def)

text \<open>The fields of a timestamp have fixed widths, so two equal timestamps agree field by field.\<close>

lemma fixed_width_fields:
  assumes "length a = length b" and "a @ c # x = b @ c # y"
  shows "a = b \<and> x = y"
  using assms by simp

lemma isoformat_inj:
  assumes a: "datetime_ok a" and b: "datetime_ok b" and eq: "isoformat a = isoformat b"
  shows "a = b"
proof -
  have len:
    "length (zero_pad 4 (dt_year a)) = length (zero_pad 4 (dt_year b))"
    "length (zero_pad 2 (dt_month a)) = length (zero_pad 2 (dt_month b))"
    "length (zero_pad 2 (dt_day a)) = length (zero_pad 2 (dt_day b))"
    "length (zero_pad 2 (dt_hour a)) = length (zero_pad 2 (dt_hour b))"
    "length (zero_pad 2 (dt_minute a)) = length (zero_pad 2 (dt_minute b))"
    "length (zero_pad 2 (dt_second a)) = length (zero_pad 2 (dt_second b))"
    using a b by (simp_all add: datetime_ok_def length_zero_pad)
  let ?frac = "\<lambda>t. if dt_microsecond t = 0 then [] else ''.'' @ zero_pad 6 (dt_microsecond t)"
  from eq have e1:
    "zero_pad 4 (dt_year a) @ CHR ''-'' # (zero_pad 2 (dt_month a) @ CHR ''-'' #
       (zero_pad 2 (dt_day a) @ CHR ''T'' # (zero_pad 2 (dt_hour a) @ CHR '':'' #
       (zero_pad 2 (dt_minute a) @ CHR '':'' # (zero_pad 2 (dt_second a) @ ?frac a)))))
     = zero_pad 4 (dt_year b) @ CHR ''-'' # (zero_pad 2 (dt_month b) @ CHR ''-'' #
       (zero_pad 2 (dt_day b) @ CHR ''T'' # (zero_pad 2 (dt_hour b) @ CHR '':'' #
       (zero_pad 2 (dt_minute b) @ CHR '':'' # (zero_pad 2 (dt_second b) @ ?frac b)))))"
    by (simp add: isoformat_def split del: if_split)
  from fixed_width_fields [OF len(1) e1]
  have y: "zero_pad 4 (dt_year a) = zero_pad 4 (dt_year b)"
    and e2: "zero_pad 2 (dt_month a) @ CHR ''-'' #
       (zero_pad 2 (dt_day a) @ CHR ''T'' # (zero_pad 2 (dt_hour a) @ CHR '':'' #
       (zero_pad 2 (dt_minute a) @ CHR '':'' # (zero_pad 2 (dt_second a) @ ?frac a))))
     = zero_pad 2 (dt_month b) @ CHR ''-'' #
       (zero_pad 2 (dt_day b) @ CHR ''T'' # (zero_pad 2 (dt_hour b) @ CHR '':'' #
       (zero_pad 2 (dt_minute b) @ CHR '':'' # (zero_pad 2 (dt_second b) @ ?frac b))))"
    by blast+
  from fixed_width_fields [OF len(2) e2]
  have mo: "zero_pad 2 (dt_month a) = zero_pad 2 (dt_month b)"
    and e3: "zero_pad 2 (dt_day a) @ CHR ''T'' # (zero_pad 2 (dt_hour a) @ CHR '':'' #
       (zero_pad 2 (dt_minute a) @ CHR '':'' # (zero_pad 2 (dt_second a) @ ?frac a)))
     = zero_pad 2 (dt_day b) @ CHR ''T'' # (zero_pad 2 (dt_hour b) @ CHR '':'' #
       (zero_pad 2 (dt_minute b) @ CHR '':'' # (zero_pad 2 (dt_second b) @ ?frac b)))"
    by blast+
  from fixed_width_fields [OF len(3) e3]
  have d: "zero_pad 2 (dt_day a) = zero_pad 2 (dt_day b)"
    and e4: "zero_pad 2 (dt_hour a) @ CHR '':'' #
       (zero_pad 2 (dt_minute a) @ CHR '':'' # (zero_pad 2 (dt_second a) @ ?frac a))
     = zero_pad 2 (dt_hour b) @ CHR '':'' #
       (zero_pad 2 (dt_minute b) @ CHR '':'' # (zero_pad 2 (dt_second b) @ ?frac b))"
    by blast+
  from fixed_width_fields [OF len(4) e4]
  have h: "zero_pad 2 (dt_hour a) = zero_pad 2 (dt_hour b)"
    and e5: "zero_pad 2 (dt_minute a) @ CHR '':'' # (zero_pad 2 (dt_second a) @ ?frac a)
     = zero_pad 2 (dt_minute b) @ CHR '':'' # (zero_pad 2 (dt_second b) @ ?frac b)"
    by blast+
  from fixed_width_fields [OF len(5) e5]
  have mi: "zero_pad 2 (dt_minute a) = zero_pad 2 (dt_minute b)"
    and e6: "zero_pad 2 (dt_second a) @ ?frac a = zero_pad 2 (dt_second b) @ ?frac b"
    by blast+
  from e6 len(6)
  have s: "zero_pad 2 (dt_second a) = zero_pad 2 (dt_second b)" and f: "?frac a = ?frac b"
    by simp_all
  from f have us: "dt_microsecond a = dt_microsecond b"
    by (auto split: if_splits dest: zero_pad_inj)
  from y mo d h mi s us show ?thesis
    by (auto dest!: zero_pad_inj intro: datetime.equality)
qed

section \<open>Saving the same metadata twice\<close>

text \<open>
  C6, as amended. Two saves of the same metadata content (the same key/value pairs, in
  any insertion order), each with the hash of its metadata, add two distinct rows: their
  ids differ (the second is greater), their hashes are equal, and their timestamps are
  equal exactly when the clock gave the same reading at both saves.
\<close>

theorem same_metadata_saved_twice:
  assumes first: "save_metadata db t1 p1 m1 (hash_metadata m1) = Inr (db1, id1)"
    and second: "save_metadata db1 t2 p2 m2 (hash_metadata m2) = Inr (db2, id2)"
    and content: "distinct (map fst m1)" "distinct (map fst m2)" "set m1 = set m2"
    and clock: "datetime_ok t1" "datetime_ok t2"
  shows "\<exists>r1 r2. db_rows db2 = db_rows db @ [r1, r2]
           \<and> r_id r1 = id1 \<and> r_id r2 = id2 \<and> id1 < id2 \<and> r1 \<noteq> r2
           \<and> r_metadata_hash r1 = r_metadata_hash r2
           \<and> (r_timestamp r1 = r_timestamp r2) = (t1 = t2)"
proof -
  let ?r1 = "\<lparr>r_id = id1, r_file_path = p1, r_file_name = basename p1,
              r_metadata_hash = hash_metadata m1, r_timestamp = isoformat t1,
              r_metadata_json = json_dumps m1 False\<rparr>"
  let ?r2 = "\<lparr>r_id = id2, r_file_path = p2, r_file_name = basename p2,
              r_metadata_hash = hash_metadata m2, r_timestamp = isoformat t2,
              r_metadata_json = json_dumps m2 False\<rparr>"
  have rows1: "db_rows db1 = db_rows db @ [?r1]"
    by (rule save_metadata_completed(1) [OF first])
  have rows2: "db_rows db2 = db_rows db1 @ [?r2]"
    by (rule save_metadata_completed(1) [OF second])
  from save_metadata_completed(4) [OF second] rows1 have ids: "id1 < id2"
    by simp
  have hashes: "hash_metadata m1 = hash_metadata m2"
    by (rule hash_ignores_insertion_order [OF content])
  have stamps: "(isoformat t1 = isoformat t2) = (t1 = t2)"
    using isoformat_inj [OF clock] by blast
  from rows1 rows2 have "db_rows db2 = db_rows db @ [?r1, ?r2]"
    by simp
  moreover from ids have "?r1 \<noteq> ?r2" by simp
  ultimately show ?thesis
    using ids hashes stamps
    by (intro exI [of _ ?r1] exI [of _ ?r2]) simp
qed

theorem same_metadata_saved_twice_witness:
  "save_metadata new_database clock_0110 ''/docs/a.csv'' [] (hash_metadata []) = Inr (saved_once, 1)
   \<and> save_metadata saved_once clock_0150 ''/docs/a.csv'' [] (hash_metadata [])
       = Inr (saved_twice_later, 2)
   \<and> datetime_ok clock_0110 \<and> datetime_ok clock_0150 \<and> clock_0110 \<noteq> clock_0150
   \<and> (\<exists>r1 r2. db_rows saved_twice_later = db_rows new_database @ [r1, r2]
         \<and> r_id r1 = 1 \<and> r_id r2 = 2 \<and> r1 \<noteq> r2
         \<and> r_metadata_hash r1 = r_metadata_hash r2
         \<and> r_timestamp r1 \<noteq> r_timestamp r2)"
proof -
  have "save_metadata new_database clock_0110 ''/docs/a.csv'' []
          ''44136fa355b3678a1146ad16f7e8649e94fb4fc21fe77e8310c060f61caaff8a''
        = Inr (saved_once, 1)"
    by code_simp
  then have first:
    "save_metadata new_database clock_0110 ''/docs/a.csv'' [] (hash_metadata []) = Inr (saved_once, 1)"
    by (simp only: hash_of_empty_mapping)
  have "save_metadata saved_once clock_0150 ''/docs/a.csv'' []
          ''44136fa355b3678a1146ad16f7e8649e94fb4fc21fe77e8310c060f61caaff8a''
        = Inr (saved_twice_later, 2)"
    by code_simp
  then have second:
    "save_metadata saved_once clock_0150 ''/docs/a.csv'' [] (hash_metadata [])
       = Inr (saved_twice_later, 2)"
    by (simp only: hash_of_empty_mapping)
  have ok: "datetime_ok clock_0110" "datetime_ok clock_0150"
    by (simp_all add: datetime_ok_def clock_0110_def clock_0150_def)
  have differ: "clock_0110 \<noteq> clock_0150"
    by (simp add: clock_0110_def clock_0150_def)
  from same_metadata_saved_twice [OF first second _ _ _ ok] differ
  have "\<exists>r1 r2. db_rows saved_twice_later = db_rows new_database @ [r1, r2]
         \<and> r_id r1 = 1 \<and> r_id r2 = 2 \<and> r1 \<noteq> r2
         \<and> r_metadata_hash r1 = r_metadata_hash r2
         \<and> r_timestamp r1 \<noteq> r_timestamp r2"
    by auto
  with first second ok differ show ?thesis
    by blast
qed

text \<open>
  C6 as stated fails when the clock gives the same reading at both saves: the two rows
  have different ids and the same timestamp.
\<close>

theorem equal_timestamps_counterexample:
  "save_metadata new_database clock_0110 ''/docs/a.csv'' []
       ''44136fa355b3678a1146ad16f7e8649e94fb4fc21fe77e8310c060f61caaff8a''
     = Inr (saved_once, 1)
   \<and> save_metadata saved_once clock_0110 ''/docs/a.csv'' []
       ''44136fa355b3678a1146ad16f7e8649e94fb4fc21fe77e8310c060f61caaff8a''
     = Inr (saved_twice_same_clock, 2)
   \<and> map r_id (db_rows saved_twice_same_clock) = [1, 2]
   \<and> map r_timestamp (db_rows saved_twice_same_clock)
       = [''2024-11-03T01:10:00'', ''2024-11-03T01:10:00'']"
  by code_simp

end
